theory Spec2Isabelle
  imports Main "HOL-Library.AList" "HOL-Library.Sublist"
begin

section \<open>The feed parser of src/meetings/feedparser.js\<close>

text \<open>
  A shallow embedding of the feed item model (\<open>FeedItem\<close>), the dual-indexed collection
  (\<open>Feed\<close>) and its reconciliation (\<open>Feed.update\<close>).

  Conventions of the embedding:
  \<^item> A JavaScript object is identified by its reference. This code never mutates a
    \<open>Date\<close> or a \<open>FeedItem\<close> after construction, so the model carries the contents of an
    object together with its reference (\<open>dref\<close>, \<open>iref\<close>); \<open>===\<close> on objects and the key
    comparison of \<open>Map\<close> are equality of these values. \<open>new\<close> takes the next free
    reference from a counter that is threaded through the functions that allocate.
  \<^item> The time value of a \<open>Date\<close> is \<open>Some ms\<close>, or \<open>None\<close> for \<open>NaN\<close> (an Invalid Date).
  \<^item> \<open>Date.parse\<close> on free-form text is implementation-defined; it is the parameter
    \<open>dp\<close> of every function that reaches it.
  \<^item> A \<open>Map\<close> is an association list in insertion order (\<open>AList.update\<close> keeps the
    position of an existing key and appends a new one, as \<open>Map.prototype.set\<close> does).
  \<^item> An array that may have holes is a list of options; \<open>None\<close> is a hole, which reads
    as \<open>undefined\<close>.
  \<^item> A function that can throw returns \<open>Inl\<close> of the error, next to the state at the
    moment of the throw.
\<close>

subsection \<open>Errors\<close>

datatype error =
    TypeError                \<comment> \<open>a property read on \<open>null\<close> or \<open>undefined\<close>\<close>
  | InvalidDate              \<comment> \<open>\<open>throw new Error('invalid date')\<close>\<close>
  | NotInFeed string         \<comment> \<open>\<open>throw new Error(`item "${itemId}" not in feed`)\<close>\<close>
  | NotInSubArray            \<comment> \<open>\<open>throw new Error(`item not in subArray: ${subArr}`)\<close>\<close>

subsection \<open>Strings\<close>

text \<open>\<open>String.prototype.split\<close> with a separator string (no limit).\<close>

fun split_go :: "string \<Rightarrow> nat \<Rightarrow> string \<Rightarrow> string \<Rightarrow> string list" where
  "split_go sep skip acc [] = [rev acc]"
| "split_go sep skip acc (c # cs) =
     (if 0 < skip then split_go sep (skip - 1) acc cs
      else if prefix sep (c # cs) then rev acc # split_go sep (length sep - 1) [] cs
      else split_go sep 0 (c # acc) cs)"

definition split :: "string \<Rightarrow> string \<Rightarrow> string list" where
  "split s sep = (if sep = [] then map (\<lambda>c. [c]) s else split_go sep 0 [] s)"

text \<open>\<open>String.prototype.indexOf\<close>: the first position of \<open>sub\<close>, or \<open>-1\<close>.\<close>

fun indexOf_from :: "string \<Rightarrow> string \<Rightarrow> int \<Rightarrow> int" where
  "indexOf_from sub [] i = (if sub = [] then i else - 1)"
| "indexOf_from sub (c # cs) i =
     (if prefix sub (c # cs) then i else indexOf_from sub cs (i + 1))"

definition indexOf :: "string \<Rightarrow> string \<Rightarrow> int" where
  "indexOf s sub = indexOf_from sub s 0"

text \<open>\<open>String.prototype.trim\<close>; the white space and line terminators below U+0100.\<close>

definition isWhiteSpace :: "char \<Rightarrow> bool" where
  "isWhiteSpace c \<longleftrightarrow>
     c \<in> {CHR 0x09, CHR 0x0A, CHR 0x0B, CHR 0x0C, CHR 0x0D, CHR 0x20, CHR 0xA0}"

definition trim :: "string \<Rightarrow> string" where
  "trim s = rev (dropWhile isWhiteSpace (rev (dropWhile isWhiteSpace s)))"

text \<open>\<open>[a, b].join(' ')\<close>; an \<open>undefined\<close> element joins as the empty string.\<close>

definition join2 :: "string option \<Rightarrow> string option \<Rightarrow> string" where
  "join2 a b =
     (case a of None \<Rightarrow> [] | Some x \<Rightarrow> x) @ '' '' @ (case b of None \<Rightarrow> [] | Some y \<Rightarrow> y)"

text \<open>\<open>arr[i]\<close> on a dense array: \<open>undefined\<close> (\<open>None\<close>) out of range.\<close>

definition at :: "'a list \<Rightarrow> nat \<Rightarrow> 'a option" where
  "at xs i = (if i < length xs then Some (xs ! i) else None)"

text \<open>Number-to-string conversion of a time value (an integer, or \<open>NaN\<close>).\<close>

definition digit :: "int \<Rightarrow> char" where
  "digit i = ''0123456789'' ! nat i"

function digits :: "int \<Rightarrow> string" where
  "digits i = (if i < 10 then [digit i] else digits (i div 10) @ [digit (i mod 10)])"
  by pat_completeness auto
termination
  by (relation "measure nat") auto

declare digits.simps [simp del]

definition numberToString :: "int option \<Rightarrow> string" where
  "numberToString v =
     (case v of
        None \<Rightarrow> ''NaN''
      | Some i \<Rightarrow> if i < 0 then ''-'' @ digits (- i) else digits i)"

subsection \<open>Dates\<close>

record jsDate =
  dref :: nat
  dtime :: "int option"

text \<open>\<open>a > b\<close> on two \<open>Date\<close>s compares their time values; any \<open>NaN\<close> makes it false.\<close>

definition date_gt :: "jsDate \<Rightarrow> jsDate \<Rightarrow> bool" where
  "date_gt a b =
     (case (dtime a, dtime b) of (Some x, Some y) \<Rightarrow> y < x | _ \<Rightarrow> False)"

text \<open>\<open>d.toString() == 'Invalid Date'\<close>: exactly when the time value is \<open>NaN\<close>.\<close>

definition isInvalidDate :: "jsDate \<Rightarrow> bool" where
  "isInvalidDate d \<longleftrightarrow> dtime d = None"

text \<open>\<open>parsePubDate(dtStr)\<close>: \<open>new Date(Date.parse(dtStr))\<close>, allocated at \<open>nxt\<close>.\<close>

definition parsePubDate :: "(string \<Rightarrow> int option) \<Rightarrow> string \<Rightarrow> nat \<Rightarrow> jsDate" where
  "parsePubDate dp dtStr nxt = \<lparr>dref = nxt, dtime = dp dtStr\<rparr>"

text \<open>
  \<open>parseCalendarEventDate(dateStr, timeStr)\<close>: the date text alone when \<open>timeStr\<close> is
  \<open>undefined\<close>, otherwise both joined by a space. \<open>new Date(undefined)\<close> is an Invalid Date.
\<close>

definition parseCalendarEventDate ::
  "(string \<Rightarrow> int option) \<Rightarrow> string option \<Rightarrow> string option \<Rightarrow> nat \<Rightarrow> jsDate" where
  "parseCalendarEventDate dp dateStr timeStr nxt =
     (let dtStr = (if timeStr \<noteq> None then Some (join2 dateStr timeStr) else dateStr)
      in \<lparr>dref = nxt, dtime = (case dtStr of None \<Rightarrow> None | Some s \<Rightarrow> dp s)\<rparr>)"

subsection \<open>The document tree\<close>

datatype node = Text string | Element string "node list"

fun textContent :: "node \<Rightarrow> string" where
  "textContent (Text s) = s"
| "textContent (Element t cs) = concat (map textContent cs)"

fun isElement :: "node \<Rightarrow> bool" where
  "isElement (Text s) = False"
| "isElement (Element t cs) = True"

fun tagName :: "node \<Rightarrow> string" where
  "tagName (Text s) = []"
| "tagName (Element t cs) = t"

fun children :: "node \<Rightarrow> node list" where
  "children (Text s) = []"
| "children (Element t cs) = filter isElement cs"

text \<open>The elements of a subtree in document order, the root first.\<close>

fun subtree :: "node \<Rightarrow> node list" where
  "subtree (Text s) = []"
| "subtree (Element t cs) = Element t cs # concat (map subtree cs)"

definition descendants :: "node \<Rightarrow> node list" where
  "descendants el = concat (map subtree (children el))"

text \<open>
  The code calls \<open>querySelector\<close> with type selectors only (\<open>'title'\<close>, \<open>'item'\<close>, ...):
  such a selector matches an element by its local name, the part of the qualified name
  after the prefix.
\<close>

definition localName :: "node \<Rightarrow> string" where
  "localName el =
     (if CHR '':'' \<in> set (tagName el) then tl (dropWhile (\<lambda>c. c \<noteq> CHR '':'') (tagName el))
      else tagName el)"

definition querySelectorAll :: "node \<Rightarrow> string \<Rightarrow> node list" where
  "querySelectorAll el sel = filter (\<lambda>d. localName d = sel) (descendants el)"

definition querySelector :: "node \<Rightarrow> string \<Rightarrow> node option" where
  "querySelector el sel =
     (case querySelectorAll el sel of [] \<Rightarrow> None | d # ds \<Rightarrow> Some d)"

text \<open>\<open>getCalendarEventTag\<close>: the first child element whose \<open>tagName\<close> is \<open>tagName\<close>.\<close>

definition getCalendarEventTag :: "node \<Rightarrow> string \<Rightarrow> node option" where
  "getCalendarEventTag srcEl tn =
     (case filter (\<lambda>el. tagName el = tn) (children srcEl) of
        [] \<Rightarrow> None
      | el # els \<Rightarrow> Some el)"

text \<open>
  \<open>getElemText(srcEl, selector)\<close>. \<open>srcEl\<close> is \<open>None\<close> for \<open>null\<close>, \<open>selector\<close> is \<open>None\<close> for
  \<open>undefined\<close>. Every property read on \<open>null\<close> throws a \<open>TypeError\<close>.
\<close>

definition getElemText :: "node option \<Rightarrow> string option \<Rightarrow> error + string" where
  "getElemText srcEl selector =
     (case (case selector of
              None \<Rightarrow> Inr srcEl
            | Some sel \<Rightarrow>
                (case srcEl of
                   None \<Rightarrow> Inl TypeError
                 | Some src \<Rightarrow>
                     if prefix ''calendarEvent:'' sel then Inr (getCalendarEventTag src sel)
                     else Inr (querySelector src sel))) of
        Inl e \<Rightarrow> Inl e
      | Inr None \<Rightarrow> Inl TypeError
      | Inr (Some el) \<Rightarrow> Inr (textContent el))"

subsection \<open>FeedItem\<close>

record feedItem =
  iref :: nat
  title :: string
  pubDate :: jsDate
  description :: string
  startTime :: jsDate
  endTime :: jsDate

text \<open>\<open>get timeStamp()\<close>: \<open>this.startTime.valueOf()\<close>.\<close>

definition timeStamp :: "feedItem \<Rightarrow> int option" where
  "timeStamp item = dtime (startTime item)"

text \<open>\<open>get id()\<close>: the template \<open>`${this.title} || ${this.timeStamp}`\<close>.\<close>

definition item_id :: "feedItem \<Rightarrow> string" where
  "item_id item = title item @ '' || '' @ numberToString (timeStamp item)"

text \<open>
  \<open>FeedItem.parse(elem)\<close>. The objects are allocated in the order of the source:
  \<open>pubDate\<close> at \<open>nxt\<close>, \<open>startTime\<close> at \<open>nxt + 1\<close>, \<open>endTime\<close> at \<open>nxt + 2\<close>, the item at
  \<open>nxt + 3\<close>. The second component is the counter after the call.
\<close>

definition eventTimesOf :: "node \<Rightarrow> error + string list" where
  "eventTimesOf elem =
     (case getElemText (Some elem) (Some ''calendarEvent:EventTimes'') of
        Inl e \<Rightarrow> Inl e
      | Inr s \<Rightarrow> Inr (split s '' - ''))"

definition eventDatesOf :: "node \<Rightarrow> error + string list" where
  "eventDatesOf elem =
     (case getElemText (Some elem) (Some ''calendarEvent:EventDates'') of
        Inl e \<Rightarrow> Inl e
      | Inr s \<Rightarrow>
          (let eventDateStr = trim s
           in if indexOf eventDateStr '' - '' \<noteq> - 1 then Inr (split eventDateStr '' - '')
              else Inr [eventDateStr, eventDateStr]))"

definition FeedItem_parse ::
  "(string \<Rightarrow> int option) \<Rightarrow> node \<Rightarrow> nat \<Rightarrow> (error + feedItem) \<times> nat" where
  "FeedItem_parse dp elem nxt =
     (case getElemText (Some elem) (Some ''title'') of
        Inl e \<Rightarrow> (Inl e, nxt)
      | Inr ttl \<Rightarrow>
     (case getElemText (Some elem) (Some ''pubDate'') of
        Inl e \<Rightarrow> (Inl e, nxt)
      | Inr pd \<Rightarrow>
     (case getElemText (Some elem) (Some ''description'') of
        Inl e \<Rightarrow> (Inl e, nxt + 1)
      | Inr desc \<Rightarrow>
     (case eventTimesOf elem of
        Inl e \<Rightarrow> (Inl e, nxt + 1)
      | Inr eventTimes \<Rightarrow>
     (case eventDatesOf elem of
        Inl e \<Rightarrow> (Inl e, nxt + 1)
      | Inr eventDates \<Rightarrow>
          (let start = parseCalendarEventDate dp (at eventDates 0) (at eventTimes 0) (nxt + 1)
           in if isInvalidDate start then (Inl InvalidDate, nxt + 2)
              else
                (Inr \<lparr>iref = nxt + 3, title = ttl, pubDate = parsePubDate dp pd nxt,
                      description = desc, startTime = start,
                      endTime =
                        parseCalendarEventDate dp (at eventDates 1) (at eventTimes 1) (nxt + 2)\<rparr>,
                 nxt + 4)))))))"

subsection \<open>Feed\<close>

text \<open>
  A bucket of \<open>itemsByStartTime\<close> is an array; \<open>delete subArr[i]\<close> leaves a hole in it, so
  its elements are options.
\<close>

record feed =
  f_title :: string
  f_link :: string
  buildDate :: jsDate
  f_description :: string
  itemsByStartTime :: "(jsDate \<times> feedItem option list) list"
  itemsById :: "(string \<times> feedItem) list"

definition Feed_new :: "string \<Rightarrow> string \<Rightarrow> jsDate \<Rightarrow> string \<Rightarrow> feed" where
  "Feed_new t l b d =
     \<lparr>f_title = t, f_link = l, buildDate = b, f_description = d,
      itemsByStartTime = [], itemsById = []\<rparr>"

text \<open>
  \<open>addChild(feedItem)\<close>. When the key is new, \<open>set(itemDt, [])\<close> appends an empty bucket
  and the \<open>push\<close> fills it; otherwise the \<open>push\<close> extends the bucket in place.
\<close>

definition addChild :: "feedItem \<Rightarrow> feed \<Rightarrow> feed" where
  "addChild item f =
     (let itemDt = startTime item;
          byId = AList.update (item_id item) item (itemsById f);
          byStart =
            (case map_of (itemsByStartTime f) itemDt of
               None \<Rightarrow> AList.update itemDt [Some item] (itemsByStartTime f)
             | Some subArr \<Rightarrow> AList.update itemDt (subArr @ [Some item]) (itemsByStartTime f))
      in f\<lparr>itemsByStartTime := byStart, itemsById := byId\<rparr>)"

text \<open>\<open>Array.prototype.indexOf\<close>: the first index holding the item, or \<open>-1\<close>; holes never match.\<close>

fun array_indexOf_from :: "'a option list \<Rightarrow> 'a \<Rightarrow> int \<Rightarrow> int" where
  "array_indexOf_from [] x i = - 1"
| "array_indexOf_from (y # ys) x i =
     (if y = Some x then i else array_indexOf_from ys x (i + 1))"

definition array_indexOf :: "'a option list \<Rightarrow> 'a \<Rightarrow> int" where
  "array_indexOf xs x = array_indexOf_from xs x 0"

text \<open>
  \<open>removeChild(itemId)\<close>. \<open>delete subArr[subIndex]\<close> turns the element into a hole and
  keeps the length of the array; the test of \<open>subArr.length\<close> follows it as in the source.
  A missing bucket makes \<open>subArr\<close> \<open>undefined\<close>, and \<open>subArr.indexOf\<close> a \<open>TypeError\<close>.
\<close>

definition removeChild :: "string \<Rightarrow> feed \<Rightarrow> (error + unit) \<times> feed" where
  "removeChild itemId f =
     (case map_of (itemsById f) itemId of
        None \<Rightarrow> (Inl (NotInFeed itemId), f)
      | Some item \<Rightarrow>
          (case map_of (itemsByStartTime f) (startTime item) of
             None \<Rightarrow> (Inl TypeError, f)
           | Some subArr \<Rightarrow>
               (let subIndex = array_indexOf subArr item
                in if subIndex = - 1 then (Inl NotInSubArray, f)
                   else
                     (let subArr' = subArr[nat subIndex := None];
                          byStart = AList.update (startTime item) subArr' (itemsByStartTime f);
                          byStart' =
                            (if length subArr' = 0 then AList.delete (startTime item) byStart
                             else byStart)
                      in (Inr (),
                          f\<lparr>itemsByStartTime := byStart',
                            itemsById := AList.delete itemId (itemsById f)\<rparr>)))))"

text \<open>
  \<open>dts.sort(function(a, b){ return a.getTime() - b.getTime() })\<close>: a stable sort by the
  comparator; a \<open>NaN\<close> result counts as \<open>0\<close>. With an Invalid Date among the keys the
  comparator is not consistent and the order is implementation-defined; the insertion
  sort below is then one admissible outcome.
\<close>

definition compareTime :: "jsDate \<Rightarrow> jsDate \<Rightarrow> int" where
  "compareTime a b =
     (case (dtime a, dtime b) of (Some x, Some y) \<Rightarrow> x - y | _ \<Rightarrow> 0)"

fun insertByTime :: "jsDate \<Rightarrow> jsDate list \<Rightarrow> jsDate list" where
  "insertByTime a [] = [a]"
| "insertByTime a (b # bs) =
     (if compareTime a b \<le> 0 then a # b # bs else b # insertByTime a bs)"

definition sortByTime :: "jsDate list \<Rightarrow> jsDate list" where
  "sortByTime ds = foldr insertByTime ds []"

definition sortedStartTimes :: "feed \<Rightarrow> jsDate list" where
  "sortedStartTimes f = sortByTime (map fst (itemsByStartTime f))"

text \<open>
  \<open>sortedItems()\<close>: \<open>yield*\<close> over each bucket; the array iterator yields \<open>undefined\<close>
  (\<open>None\<close>) for a hole. Every \<open>dt\<close> is a key of the map, so the lookup finds a bucket.
\<close>

definition sortedItems :: "feed \<Rightarrow> feedItem option list" where
  "sortedItems f =
     concat (map (\<lambda>dt. case map_of (itemsByStartTime f) dt of None \<Rightarrow> [] | Some items \<Rightarrow> items)
       (sortedStartTimes f))"

text \<open>\<open>parseChild(itemEl)\<close>, on the feed and the allocation counter.\<close>

definition parseChild ::
  "(string \<Rightarrow> int option) \<Rightarrow> node \<Rightarrow> feed \<times> nat \<Rightarrow> (error + bool \<times> feedItem) \<times> feed \<times> nat" where
  "parseChild dp itemEl s =
     (case FeedItem_parse dp itemEl (snd s) of
        (Inl e, nxt') \<Rightarrow> (Inl e, fst s, nxt')
      | (Inr child, nxt') \<Rightarrow>
          (case map_of (itemsById (fst s)) (item_id child) of
             Some existing \<Rightarrow> (Inr (False, existing), fst s, nxt')
           | None \<Rightarrow> (Inr (True, child), addChild child (fst s), nxt')))"

text \<open>
  The loop of \<open>update\<close> over \<open>elem.querySelectorAll('item')\<close>: \<open>changed\<close> becomes true when
  an entry is created; a throw of \<open>parseChild\<close> leaves the loop with the feed as it is then.
\<close>

fun parseChildren ::
  "(string \<Rightarrow> int option) \<Rightarrow> node list \<Rightarrow> bool \<Rightarrow> feed \<times> nat \<Rightarrow> (error + bool) \<times> feed \<times> nat" where
  "parseChildren dp [] changed s = (Inr changed, s)"
| "parseChildren dp (childElem # rest) changed s =
     (case parseChild dp childElem s of
        (Inl e, s') \<Rightarrow> (Inl e, s')
      | (Inr (created, child), s') \<Rightarrow>
          parseChildren dp rest (if created then True else changed) s')"

text \<open>\<open>itemsToRemove.forEach((itemId) => { this.removeChild(itemId); })\<close>.\<close>

fun removeChildren :: "string list \<Rightarrow> feed \<Rightarrow> (error + unit) \<times> feed" where
  "removeChildren [] f = (Inr (), f)"
| "removeChildren (itemId # rest) f =
     (case removeChild itemId f of
        (Inl e, f') \<Rightarrow> (Inl e, f')
      | (Inr u, f') \<Rightarrow> removeChildren rest f')"

text \<open>
  The first two statements of \<open>update\<close> (and of \<open>Feed.parse\<close>): the channel element and the
  build date read from it, allocated at \<open>nxt\<close>.
\<close>

definition remoteBuildDate ::
  "(string \<Rightarrow> int option) \<Rightarrow> node \<Rightarrow> nat \<Rightarrow> error + jsDate" where
  "remoteBuildDate dp doc nxt =
     (case getElemText (querySelector doc ''channel'') (Some ''lastBuildDate'') of
        Inl e \<Rightarrow> Inl e
      | Inr s \<Rightarrow> Inr (parsePubDate dp s nxt))"

definition channelItems :: "node \<Rightarrow> node list" where
  "channelItems doc =
     (case querySelector doc ''channel'' of
        None \<Rightarrow> []
      | Some elem \<Rightarrow> querySelectorAll elem ''item'')"

text \<open>
  \<open>update(doc)\<close>. The result is the pair \<open>[changed, itemsToRemove]\<close>; the set
  \<open>itemsToRemove\<close> is the list of the keys of \<open>itemsById\<close> in insertion order (the keys of
  a \<open>Map\<close> are distinct, so the \<open>Set\<close> built from them has the same elements in that order).
\<close>

definition update ::
  "(string \<Rightarrow> int option) \<Rightarrow> node \<Rightarrow> feed \<times> nat \<Rightarrow> (error + bool \<times> string list) \<times> feed \<times> nat" where
  "update dp doc s =
     (case remoteBuildDate dp doc (snd s) of
        Inl e \<Rightarrow> (Inl e, s)
      | Inr bd \<Rightarrow>
          if date_gt bd (buildDate (fst s)) then (Inr (False, []), fst s, snd s + 1)
          else
            (let itemsToRemove = map fst (itemsById (fst s))
             in case parseChildren dp (channelItems doc) False (fst s, snd s + 1) of
                  (Inl e, s') \<Rightarrow> (Inl e, s')
                | (Inr changed, f', nxt') \<Rightarrow>
                    (let changed' = (if itemsToRemove \<noteq> [] then True else changed)
                     in case removeChildren itemsToRemove f' of
                          (Inl e, f'') \<Rightarrow> (Inl e, f'', nxt')
                        | (Inr u, f'') \<Rightarrow> (Inr (changed', itemsToRemove), f'', nxt'))))"

text \<open>
  \<open>Feed.parse(doc)\<close>: a new feed from the channel's fields, then \<open>parseChild\<close> on every
  item of the channel.
\<close>

definition Feed_parse ::
  "(string \<Rightarrow> int option) \<Rightarrow> node \<Rightarrow> nat \<Rightarrow> (error + feed) \<times> nat" where
  "Feed_parse dp doc nxt =
     (let elem = querySelector doc ''channel''
      in case getElemText elem (Some ''title'') of
           Inl e \<Rightarrow> (Inl e, nxt)
         | Inr t \<Rightarrow>
        (case getElemText elem (Some ''link'') of
           Inl e \<Rightarrow> (Inl e, nxt)
         | Inr l \<Rightarrow>
        (case remoteBuildDate dp doc nxt of
           Inl e \<Rightarrow> (Inl e, nxt)
         | Inr bd \<Rightarrow>
        (case getElemText elem (Some ''description'') of
           Inl e \<Rightarrow> (Inl e, nxt + 1)
         | Inr d \<Rightarrow>
        (case parseChildren dp (channelItems doc) False (Feed_new t l bd d, nxt + 1) of
           (Inl e, f, nxt') \<Rightarrow> (Inl e, nxt')
         | (Inr c, f, nxt') \<Rightarrow> (Inr f, nxt'))))))"

subsection \<open>Notions used in the statements\<close>

text \<open>
  One of the five lookups of \<open>FeedItem.parse\<close> finds no element: \<open>querySelector\<close> or
  \<open>getCalendarEventTag\<close> returns \<open>null\<close>.
\<close>

definition missingField :: "node \<Rightarrow> bool" where
  "missingField elem \<longleftrightarrow>
     querySelector elem ''title'' = None \<or>
     querySelector elem ''pubDate'' = None \<or>
     querySelector elem ''description'' = None \<or>
     getCalendarEventTag elem ''calendarEvent:EventTimes'' = None \<or>
     getCalendarEventTag elem ''calendarEvent:EventDates'' = None"

text \<open>The bucket stored under a start time; no bucket reads as the empty one.\<close>

definition bucketOf :: "feed \<Rightarrow> jsDate \<Rightarrow> feedItem option list" where
  "bucketOf f dt = (case map_of (itemsByStartTime f) dt of None \<Rightarrow> [] | Some b \<Rightarrow> b)"

text \<open>
  The feeds reachable from a new feed by \<open>addChild\<close> and \<open>removeChild\<close>, where the caller
  of \<open>addChild\<close> has checked that the identity is not yet present (as \<open>parseChild\<close> does).
  A \<open>removeChild\<close> that throws is a step as well; it leaves the feed as it is.
\<close>

inductive reachable :: "feed \<Rightarrow> bool" where
  new: "reachable (Feed_new t l b d)"
| insert: "reachable f \<Longrightarrow> map_of (itemsById f) (item_id item) = None \<Longrightarrow>
     reachable (addChild item f)"
| remove: "reachable f \<Longrightarrow> reachable (snd (removeChild itemId f))"

text \<open>
  The two maps agree: an item stored under a key of \<open>itemsById\<close> has that key as its
  identity and occurs once in the bucket of its start time; an item in a bucket is in
  the bucket of its own start time and is stored in \<open>itemsById\<close> under its identity.
\<close>

definition lockStep :: "feed \<Rightarrow> bool" where
  "lockStep f \<longleftrightarrow>
     (\<forall>k item. map_of (itemsById f) k = Some item \<longrightarrow>
        item_id item = k \<and> count_list (bucketOf f (startTime item)) (Some item) = 1) \<and>
     (\<forall>dt b item. map_of (itemsByStartTime f) dt = Some b \<longrightarrow> Some item \<in> set b \<longrightarrow>
        dt = startTime item \<and> map_of (itemsById f) (item_id item) = Some item)"

text \<open>
  Nothing of the first feed is missing in the second: every key of \<open>itemsById\<close> keeps its
  item and every bucket is extended at most at its end.
\<close>

definition nothingRemoved :: "feed \<Rightarrow> feed \<Rightarrow> bool" where
  "nothingRemoved f f' \<longleftrightarrow>
     (\<forall>k item. map_of (itemsById f) k = Some item \<longrightarrow> map_of (itemsById f') k = Some item) \<and>
     (\<forall>dt b. map_of (itemsByStartTime f) dt = Some b \<longrightarrow>
        (\<exists>b'. map_of (itemsByStartTime f') dt = Some b' \<and> prefix b b'))"

text \<open>
  A \<open>Date\<close> with a time value, and the order of the comparator of \<open>sortedStartTimes\<close>:
  \<open>a\<close> does not come after \<open>b\<close>.
\<close>

definition validDate :: "jsDate \<Rightarrow> bool" where
  "validDate d \<longleftrightarrow> dtime d \<noteq> None"

definition notAfter :: "jsDate \<Rightarrow> jsDate \<Rightarrow> bool" where
  "notAfter a b \<longleftrightarrow> compareTime a b \<le> 0"

subsection \<open>Example documents\<close>

text \<open>
  \<open>Date.parse\<close> on the texts of the examples (read as UTC); every other text is
  unparsable.
\<close>

definition sample_dp :: "string \<Rightarrow> int option" where
  "sample_dp = map_of
     [(''Fri, 05 Jan 2024 08:00:00 GMT'', 1704441600000),
      (''Sat, 06 Jan 2024 08:00:00 GMT'', 1704528000000),
      (''Jan 5 2024 9:00 AM'', 1704445200000),
      (''Jan 5 2024 10:00 AM'', 1704448800000),
      (''Jan 5 2024 11:00 AM'', 1704452400000),
      (''Jan 5 2024 12:00 PM'', 1704456000000)]"

definition sample_field :: "string \<Rightarrow> string \<Rightarrow> node" where
  "sample_field t s = Element t [Text s]"

definition sample_entry :: "string \<Rightarrow> string \<Rightarrow> string \<Rightarrow> node" where
  "sample_entry ttl dates tms =
     Element ''item''
       [sample_field ''title'' ttl,
        sample_field ''pubDate'' ''Fri, 05 Jan 2024 08:00:00 GMT'',
        sample_field ''description'' ''Agenda'',
        sample_field ''calendarEvent:EventDates'' dates,
        sample_field ''calendarEvent:EventTimes'' tms]"

definition sample_doc :: "string \<Rightarrow> node list \<Rightarrow> node" where
  "sample_doc build entries =
     Element ''#document'' [Element ''rss'' [Element ''channel''
       ([sample_field ''title'' ''Meetings'',
         sample_field ''link'' ''http://example.org/feed'',
         sample_field ''lastBuildDate'' build,
         sample_field ''description'' ''Public meetings''] @ entries)]]"

definition entryA :: node where
  "entryA = sample_entry ''A'' ''Jan 5 2024'' ''9:00 AM - 10:00 AM''"

definition entryB :: node where
  "entryB = sample_entry ''B'' ''Jan 5 2024'' ''10:00 AM - 11:00 AM''"

definition entryC :: node where
  "entryC = sample_entry ''C'' ''Jan 5 2024'' ''11:00 AM - 12:00 PM''"

text \<open>An entry with the start of \<open>A\<close> and another title.\<close>

definition entryA2 :: node where
  "entryA2 = sample_entry ''A2'' ''Jan 5 2024'' ''9:00 AM - 10:00 AM''"

text \<open>An entry without the \<open>calendarEvent:EventTimes\<close> child.\<close>

definition entryNoTimes :: node where
  "entryNoTimes =
     Element ''item''
       [sample_field ''title'' ''N'',
        sample_field ''pubDate'' ''Fri, 05 Jan 2024 08:00:00 GMT'',
        sample_field ''description'' ''Agenda'',
        sample_field ''calendarEvent:EventDates'' ''Jan 5 2024'']"

text \<open>Entries whose start, respectively end, is no date.\<close>

definition entryBadStart :: node where
  "entryBadStart = sample_entry ''D'' ''someday'' ''9:00 AM - 10:00 AM''"

definition entryBadEnd :: node where
  "entryBadEnd = sample_entry ''E'' ''Jan 5 2024'' ''9:00 AM - late''"

definition buildFri :: string where
  "buildFri = ''Fri, 05 Jan 2024 08:00:00 GMT''"

definition buildSat :: string where
  "buildSat = ''Sat, 06 Jan 2024 08:00:00 GMT''"

text \<open>The items and the feed that \<open>Feed.parse\<close> builds from the channel with \<open>A\<close> and \<open>B\<close>.\<close>

definition mkItem :: "nat \<Rightarrow> string \<Rightarrow> int \<Rightarrow> int option \<Rightarrow> feedItem" where
  "mkItem r ttl st en =
     \<lparr>iref = r + 3, title = ttl, pubDate = \<lparr>dref = r, dtime = Some 1704441600000\<rparr>,
      description = ''Agenda'', startTime = \<lparr>dref = r + 1, dtime = Some st\<rparr>,
      endTime = \<lparr>dref = r + 2, dtime = en\<rparr>\<rparr>"

definition itemA :: feedItem where
  "itemA = mkItem 1 ''A'' 1704445200000 (Some 1704448800000)"

definition itemB :: feedItem where
  "itemB = mkItem 5 ''B'' 1704448800000 (Some 1704452400000)"

definition feed0 :: feed where
  "feed0 = Feed_new ''Meetings'' ''http://example.org/feed''
     \<lparr>dref = 0, dtime = Some 1704441600000\<rparr> ''Public meetings''"

definition feedAB :: feed where
  "feedAB = addChild itemB (addChild itemA feed0)"

definition itemA2 :: feedItem where
  "itemA2 = mkItem 5 ''A2'' 1704445200000 (Some 1704448800000)"

text \<open>
  \<open>C\<close> as \<open>update\<close> allocates it on \<open>feedAB\<close>: after the build date and the entry \<open>B\<close>
  (\<open>itemC\<close>), respectively right after the build date (\<open>itemC'\<close>).
\<close>

definition itemC :: feedItem where
  "itemC = mkItem 14 ''C'' 1704452400000 (Some 1704456000000)"

definition itemC' :: feedItem where
  "itemC' = mkItem 10 ''C'' 1704452400000 (Some 1704456000000)"

definition docAB :: node where
  "docAB = sample_doc buildFri [entryA, entryB]"

definition docBC :: node where
  "docBC = sample_doc buildFri [entryB, entryC]"

definition docAA2 :: node where
  "docAA2 = sample_doc buildFri [entryA, entryA2]"

definition docCBad :: node where
  "docCBad = sample_doc buildFri [entryC, entryBadStart]"

section \<open>Properties\<close>

subsection \<open>Parsing an entry\<close>

lemma split_go_nonempty: "split_go sep skip acc s \<noteq> []"
  by (induction s arbitrary: skip acc) auto

lemma split_nonempty: "split s '' - '' \<noteq> []"
  by (simp add: split_def split_go_nonempty)

lemma at_split_0: "at (split s '' - '') 0 \<noteq> None"
  using split_nonempty [of s] by (simp add: at_def)

lemma getElemText_selector:
  "\<not> prefix ''calendarEvent:'' sel \<Longrightarrow>
   getElemText (Some elem) (Some sel) =
     (case querySelector elem sel of None \<Rightarrow> Inl TypeError | Some el \<Rightarrow> Inr (textContent el))"
  by (simp add: getElemText_def split: option.splits)

lemma getElemText_calendarEvent:
  "prefix ''calendarEvent:'' sel \<Longrightarrow>
   getElemText (Some elem) (Some sel) =
     (case getCalendarEventTag elem sel of None \<Rightarrow> Inl TypeError | Some el \<Rightarrow> Inr (textContent el))"
  by (simp add: getElemText_def split: option.splits)

lemma getElemText_error: "getElemText srcEl selector = Inl e \<Longrightarrow> e = TypeError"
  by (auto simp: getElemText_def split: option.splits if_splits sum.splits)

lemma eventTimesOf_cases:
  "eventTimesOf elem =
     (case getCalendarEventTag elem ''calendarEvent:EventTimes'' of
        None \<Rightarrow> Inl TypeError
      | Some el \<Rightarrow> Inr (split (textContent el) '' - ''))"
  by (simp add: eventTimesOf_def getElemText_calendarEvent split: option.splits)

lemma eventTimesOf_at_0: "eventTimesOf elem = Inr ets \<Longrightarrow> at ets 0 \<noteq> None"
  using at_split_0 by (auto simp: eventTimesOf_cases split: option.splits)

lemma eventDatesOf_cases:
  "eventDatesOf elem = Inl e \<longleftrightarrow>
     (getCalendarEventTag elem ''calendarEvent:EventDates'' = None \<and> e = TypeError)"
  by (auto simp: eventDatesOf_def getElemText_calendarEvent Let_def split: option.splits)

lemma start_dtime:
  "at ets 0 \<noteq> None \<Longrightarrow>
   dtime (parseCalendarEventDate dp d (at ets 0) n) = dp (join2 d (at ets 0))"
  by (simp add: parseCalendarEventDate_def)

lemma parse_TypeError:
  "missingField elem \<Longrightarrow> fst (FeedItem_parse dp elem nxt) = Inl TypeError"
  unfolding FeedItem_parse_def missingField_def
  by (auto simp: getElemText_selector eventTimesOf_cases eventDatesOf_def getElemText_calendarEvent Let_def
      split: option.splits sum.splits)

lemma eventDatesOf_present:
  "getCalendarEventTag elem ''calendarEvent:EventDates'' \<noteq> None \<Longrightarrow> \<exists>eds. eventDatesOf elem = Inr eds"
  by (cases "eventDatesOf elem") (auto simp: eventDatesOf_cases)

lemma present_fields:
  assumes "\<not> missingField elem"
  shows "\<exists>ttl pd desc ets eds.
     getElemText (Some elem) (Some ''title'') = Inr ttl \<and>
     getElemText (Some elem) (Some ''pubDate'') = Inr pd \<and>
     getElemText (Some elem) (Some ''description'') = Inr desc \<and>
     eventTimesOf elem = Inr ets \<and> eventDatesOf elem = Inr eds"
proof -
  from assms have p: "querySelector elem ''title'' \<noteq> None" "querySelector elem ''pubDate'' \<noteq> None"
    "querySelector elem ''description'' \<noteq> None"
    "getCalendarEventTag elem ''calendarEvent:EventTimes'' \<noteq> None"
    "getCalendarEventTag elem ''calendarEvent:EventDates'' \<noteq> None"
    by (simp_all add: missingField_def)
  from p(5) obtain eds where "eventDatesOf elem = Inr eds"
    using eventDatesOf_present by blast
  with p(1-4) show ?thesis
    by (auto simp: getElemText_selector eventTimesOf_cases)
qed

lemma parse_InvalidDate_iff:
  "fst (FeedItem_parse dp elem nxt) = Inl InvalidDate \<longleftrightarrow>
     \<not> missingField elem \<and>
     (\<exists>ets eds. eventTimesOf elem = Inr ets \<and> eventDatesOf elem = Inr eds \<and>
        isInvalidDate (parseCalendarEventDate dp (at eds 0) (at ets 0) (nxt + 1)))"
proof (cases "missingField elem")
  case True
  then show ?thesis using parse_TypeError [of elem dp nxt] by simp
next
  case False
  then obtain ttl pd desc ets eds where
    f: "getElemText (Some elem) (Some ''title'') = Inr ttl"
       "getElemText (Some elem) (Some ''pubDate'') = Inr pd"
       "getElemText (Some elem) (Some ''description'') = Inr desc"
       "eventTimesOf elem = Inr ets" "eventDatesOf elem = Inr eds"
    using present_fields by blast
  show ?thesis using False f
    by (simp add: FeedItem_parse_def Let_def)
qed

lemma start_invalid_iff:
  assumes "eventTimesOf elem = Inr ets"
  shows "isInvalidDate (parseCalendarEventDate dp d (at ets 0) n) \<longleftrightarrow>
     dp (join2 d (at ets 0)) = None"
proof -
  have "at ets 0 \<noteq> None" using assms by (rule eventTimesOf_at_0)
  then show ?thesis by (simp add: isInvalidDate_def start_dtime)
qed

lemma parse_success_start:
  "fst (FeedItem_parse dp elem nxt) = Inr item \<Longrightarrow> \<not> isInvalidDate (startTime item)"
  unfolding FeedItem_parse_def
  by (auto simp: Let_def split: sum.splits if_splits)

lemma parseChild_error:
  "fst (FeedItem_parse dp elem nxt) = Inl e \<Longrightarrow>
   parseChild dp elem (f, nxt) = (Inl e, f, snd (FeedItem_parse dp elem nxt))"
  by (cases "FeedItem_parse dp elem nxt") (auto simp: parseChild_def)

text \<open>
  C10: an entry that lacks one of the five fields makes \<open>FeedItem.parse\<close> read
  \<open>textContent\<close> of \<open>null\<close>, a \<open>TypeError\<close> and not the invalid-date error; the
  invalid-date error is thrown only for an entry that has all five fields and whose
  combined start text (date and time joined by a space) \<open>Date.parse\<close> cannot read.
\<close>

theorem parse_missing_field_TypeError:
  "(missingField elem \<longrightarrow> fst (FeedItem_parse dp elem nxt) = Inl TypeError) \<and>
   (fst (FeedItem_parse dp elem nxt) = Inl InvalidDate \<longrightarrow>
      \<not> missingField elem \<and>
      (\<exists>ets eds. eventTimesOf elem = Inr ets \<and> eventDatesOf elem = Inr eds \<and>
         dp (join2 (at eds 0) (at ets 0)) = None))"
proof (intro conjI impI)
  assume "missingField elem"
  then show "fst (FeedItem_parse dp elem nxt) = Inl TypeError" by (rule parse_TypeError)
next
  assume e: "fst (FeedItem_parse dp elem nxt) = Inl InvalidDate"
  then show "\<not> missingField elem" by (simp add: parse_InvalidDate_iff)
  from e obtain ets eds where
    "eventTimesOf elem = Inr ets" "eventDatesOf elem = Inr eds"
    "isInvalidDate (parseCalendarEventDate dp (at eds 0) (at ets 0) (nxt + 1))"
    unfolding parse_InvalidDate_iff by blast
  then show "\<exists>ets eds. eventTimesOf elem = Inr ets \<and> eventDatesOf elem = Inr eds \<and>
      dp (join2 (at eds 0) (at ets 0)) = None"
    using start_invalid_iff by blast
qed

theorem parse_missing_field_TypeError_witness:
  "missingField entryNoTimes \<and>
   fst (FeedItem_parse sample_dp entryNoTimes 0) = Inl TypeError \<and>
   fst (FeedItem_parse sample_dp entryBadStart 0) = Inl InvalidDate \<and>
   \<not> missingField entryBadStart \<and>
   sample_dp ''someday 9:00 AM'' = None"
proof -
  have m: "missingField entryNoTimes" by code_simp
  have i: "fst (FeedItem_parse sample_dp entryBadStart 0) = Inl InvalidDate" by code_simp
  have u: "sample_dp ''someday 9:00 AM'' = None" by code_simp
  from m have "fst (FeedItem_parse sample_dp entryNoTimes 0) = Inl TypeError"
    using parse_missing_field_TypeError [of entryNoTimes sample_dp 0] by blast
  moreover from i have "\<not> missingField entryBadStart"
    using parse_missing_field_TypeError [of entryBadStart sample_dp 0] by blast
  ultimately show ?thesis using m i u by blast
qed

text \<open>
  C7, as the code has it: \<open>FeedItem.parse\<close> throws the invalid-date error exactly when
  all five fields are present and the computed \<open>startTime\<close> is an Invalid Date (the
  computed \<open>endTime\<close> is not checked); \<open>parseChild\<close> then throws as well and leaves the
  feed as it is, so the entry is not inserted; and the \<open>startTime\<close> of a parsed item is a
  valid date.
\<close>

theorem parse_InvalidDate_exactly_invalid_start:
  "(fst (FeedItem_parse dp elem nxt) = Inl InvalidDate \<longleftrightarrow>
      \<not> missingField elem \<and>
      (\<exists>ets eds. eventTimesOf elem = Inr ets \<and> eventDatesOf elem = Inr eds \<and>
         isInvalidDate (parseCalendarEventDate dp (at eds 0) (at ets 0) (nxt + 1)))) \<and>
   (fst (FeedItem_parse dp elem nxt) = Inl InvalidDate \<longrightarrow>
      fst (parseChild dp elem (f, nxt)) = Inl InvalidDate \<and>
      fst (snd (parseChild dp elem (f, nxt))) = f) \<and>
   (\<forall>item. fst (FeedItem_parse dp elem nxt) = Inr item \<longrightarrow>
      \<not> isInvalidDate (startTime item))"
proof (intro conjI allI impI)
  show "fst (FeedItem_parse dp elem nxt) = Inl InvalidDate \<longleftrightarrow>
      \<not> missingField elem \<and>
      (\<exists>ets eds. eventTimesOf elem = Inr ets \<and> eventDatesOf elem = Inr eds \<and>
         isInvalidDate (parseCalendarEventDate dp (at eds 0) (at ets 0) (nxt + 1)))"
    by (rule parse_InvalidDate_iff)
next
  assume e: "fst (FeedItem_parse dp elem nxt) = Inl InvalidDate"
  show "fst (parseChild dp elem (f, nxt)) = Inl InvalidDate"
    using parseChild_error [OF e] by simp
  show "fst (snd (parseChild dp elem (f, nxt))) = f"
    using parseChild_error [OF e] by simp
next
  fix item
  assume "fst (FeedItem_parse dp elem nxt) = Inr item"
  then show "\<not> isInvalidDate (startTime item)" by (rule parse_success_start)
qed

theorem parse_InvalidDate_exactly_invalid_start_witness:
  "fst (FeedItem_parse sample_dp entryBadStart 9) = Inl InvalidDate \<and>
   fst (parseChild sample_dp entryBadStart (feedAB, 9)) = Inl InvalidDate \<and>
   fst (snd (parseChild sample_dp entryBadStart (feedAB, 9))) = feedAB \<and>
   fst (FeedItem_parse sample_dp entryA 1) = Inr itemA \<and>
   \<not> isInvalidDate (startTime itemA)"
proof -
  have i: "fst (FeedItem_parse sample_dp entryBadStart 9) = Inl InvalidDate" by code_simp
  have a: "fst (FeedItem_parse sample_dp entryA 1) = Inr itemA" by code_simp
  note t = parse_InvalidDate_exactly_invalid_start
  from i have "fst (parseChild sample_dp entryBadStart (feedAB, 9)) = Inl InvalidDate \<and>
      fst (snd (parseChild sample_dp entryBadStart (feedAB, 9))) = feedAB"
    using t [of sample_dp entryBadStart 9 feedAB] by blast
  moreover from a have "\<not> isInvalidDate (startTime itemA)"
    using t [of sample_dp entryA 1 feedAB] by blast
  ultimately show ?thesis using i a by blast
qed

text \<open>
  C7 as stated fails: the entry \<open>entryBadEnd\<close> has a valid start and an end text that is
  no date; \<open>FeedItem.parse\<close> returns an item for it, whose \<open>endTime\<close> is an Invalid Date.
\<close>

theorem parse_accepts_invalid_end:
  "FeedItem_parse sample_dp entryBadEnd 0 = (Inr (mkItem 0 ''E'' 1704445200000 None), 4) \<and>
   isInvalidDate (endTime (mkItem 0 ''E'' 1704445200000 None))"
  by code_simp

subsection \<open>The freshness gate and removal of an absent identity\<close>

text \<open>
  C2: when the build date read from the channel is strictly later than the one stored
  in the feed, \<open>update\<close> returns \<open>[false, new Set()]\<close> and the feed is the same feed:
  both maps and all four attributes.
\<close>

theorem update_newer_build_noop:
  assumes "remoteBuildDate dp doc nxt = Inr bd"
    and "dtime bd = Some remote" and "dtime (buildDate f) = Some local"
    and "local < remote"
  shows "fst (update dp doc (f, nxt)) = Inr (False, []) \<and>
         fst (snd (update dp doc (f, nxt))) = f"
  using assms by (simp add: update_def date_gt_def)

theorem update_newer_build_noop_witness:
  "remoteBuildDate sample_dp (sample_doc buildSat [entryC]) 9 =
     Inr \<lparr>dref = 9, dtime = Some 1704528000000\<rparr> \<and>
   dtime (buildDate feedAB) = Some 1704441600000 \<and>
   fst (update sample_dp (sample_doc buildSat [entryC]) (feedAB, 9)) = Inr (False, []) \<and>
   fst (snd (update sample_dp (sample_doc buildSat [entryC]) (feedAB, 9))) = feedAB"
proof -
  have r: "remoteBuildDate sample_dp (sample_doc buildSat [entryC]) 9 =
      Inr \<lparr>dref = 9, dtime = Some 1704528000000\<rparr>"
    by code_simp
  have l: "dtime (buildDate feedAB) = Some 1704441600000" by code_simp
  show ?thesis
    using update_newer_build_noop [OF r _ l] r l by simp
qed

text \<open>
  C6: \<open>removeChild\<close> of an identity that is not a key of \<open>itemsById\<close> throws the
  not-in-feed error and leaves the feed, both maps included, as it is.
\<close>

theorem removeChild_absent:
  "map_of (itemsById f) itemId = None \<Longrightarrow>
   removeChild itemId f = (Inl (NotInFeed itemId), f)"
  by (simp add: removeChild_def)

theorem removeChild_absent_witness:
  "map_of (itemsById feedAB) ''Z || 0'' = None \<and>
   removeChild ''Z || 0'' feedAB = (Inl (NotInFeed ''Z || 0''), feedAB)"
proof -
  have a: "map_of (itemsById feedAB) ''Z || 0'' = None" by code_simp
  show ?thesis using removeChild_absent [OF a] a by simp
qed

subsection \<open>The two maps under \<open>addChild\<close> and \<open>removeChild\<close>\<close>

lemma byId_addChild:
  "map_of (itemsById (addChild x f)) = (map_of (itemsById f))(item_id x \<mapsto> x)"
  by (simp add: addChild_def Let_def update_conv')

lemma byStart_addChild:
  "map_of (itemsByStartTime (addChild x f)) =
     (map_of (itemsByStartTime f))(startTime x \<mapsto> bucketOf f (startTime x) @ [Some x])"
  by (simp add: addChild_def Let_def update_conv' bucketOf_def split: option.splits)

lemma bucketOf_addChild:
  "bucketOf (addChild x f) dt =
     (if dt = startTime x then bucketOf f dt @ [Some x] else bucketOf f dt)"
  by (simp add: bucketOf_def [of "addChild x f"] byStart_addChild) (simp add: bucketOf_def)

lemma in_bucketOf:
  "Some y \<in> set (bucketOf f dt) \<Longrightarrow> map_of (itemsByStartTime f) dt = Some (bucketOf f dt)"
  by (cases "map_of (itemsByStartTime f) dt") (simp_all add: bucketOf_def)

lemma count_pos_in_set: "count_list xs x = 1 \<Longrightarrow> x \<in> set xs"
  by (metis count_list_0_iff zero_neq_one)

lemma lockStep_new: "lockStep (Feed_new t l b d)"
  by (simp add: lockStep_def Feed_new_def)

lemma lockStep_addChild:
  assumes inv: "lockStep f" and fresh: "map_of (itemsById f) (item_id x) = None"
  shows "lockStep (addChild x f)"
proof -
  have notin: "Some x \<notin> set (bucketOf f dt)" for dt
  proof
    assume m: "Some x \<in> set (bucketOf f dt)"
    then have "map_of (itemsByStartTime f) dt = Some (bucketOf f dt)" by (rule in_bucketOf)
    with m inv have "map_of (itemsById f) (item_id x) = Some x"
      unfolding lockStep_def by blast
    with fresh show False by simp
  qed
  have one: "item_id y = k \<and> count_list (bucketOf (addChild x f) (startTime y)) (Some y) = 1"
    if h: "map_of (itemsById (addChild x f)) k = Some y" for k y
  proof (cases "k = item_id x")
    case True
    with h have "y = x" by (simp add: byId_addChild)
    with True notin [of "startTime x"] show ?thesis
      by (simp add: bucketOf_addChild)
  next
    case False
    with h have old: "map_of (itemsById f) k = Some y" by (simp add: byId_addChild)
    with inv have k: "item_id y = k" and c: "count_list (bucketOf f (startTime y)) (Some y) = 1"
      unfolding lockStep_def by blast+
    from k False have "y \<noteq> x" by auto
    with k c show ?thesis
      by (cases "startTime y = startTime x") (simp_all add: bucketOf_addChild)
  qed
  have two: "dt = startTime y \<and> map_of (itemsById (addChild x f)) (item_id y) = Some y"
    if h: "map_of (itemsByStartTime (addChild x f)) dt = Some b" and m: "Some y \<in> set b" for dt b y
  proof (cases "y = x")
    case True
    have "dt = startTime x"
    proof (rule ccontr)
      assume "dt \<noteq> startTime x"
      with h have "map_of (itemsByStartTime f) dt = Some b" by (simp add: byStart_addChild)
      with m True have "Some x \<in> set (bucketOf f dt)" by (simp add: bucketOf_def)
      with notin show False by blast
    qed
    with True show ?thesis by (simp add: byId_addChild)
  next
    case False
    have "Some y \<in> set (bucketOf f dt)"
      using h m False by (auto simp: byStart_addChild bucketOf_def split: if_splits)
    then have "map_of (itemsByStartTime f) dt = Some (bucketOf f dt)" "Some y \<in> set (bucketOf f dt)"
      by (simp_all add: in_bucketOf)
    with inv have d: "dt = startTime y" and i: "map_of (itemsById f) (item_id y) = Some y"
      unfolding lockStep_def by blast+
    from i fresh have "item_id y \<noteq> item_id x" by auto
    with d i show ?thesis by (simp add: byId_addChild)
  qed
  show ?thesis unfolding lockStep_def using one two by blast
qed


lemma array_indexOf_from_found:
  "Some x \<in> set b \<Longrightarrow>
   i0 \<le> array_indexOf_from b x i0 \<and> nat (array_indexOf_from b x i0 - i0) < length b \<and>
   b ! nat (array_indexOf_from b x i0 - i0) = Some x"
proof (induction b arbitrary: i0)
  case Nil
  then show ?case by simp
next
  case (Cons y ys)
  show ?case
  proof (cases "y = Some x")
    case True
    then show ?thesis by simp
  next
    case False
    with Cons.prems have "Some x \<in> set ys" by simp
    define j where "j = array_indexOf_from ys x (i0 + 1)"
    define n where "n = nat (j - (i0 + 1))"
    from Cons.IH [OF \<open>Some x \<in> set ys\<close>, of "i0 + 1"]
    have le: "i0 + 1 \<le> j" and n: "n < length ys" "ys ! n = Some x"
      unfolding j_def n_def by blast+
    from le have s: "nat (j - i0) = Suc n" unfolding n_def by linarith
    have "array_indexOf_from (y # ys) x i0 = j" using False by (simp add: j_def)
    with le n s show ?thesis by simp
  qed
qed

lemma array_indexOf_found:
  assumes "Some x \<in> set b"
  shows "0 \<le> array_indexOf b x" "nat (array_indexOf b x) < length b"
    "b ! nat (array_indexOf b x) = Some x"
  using array_indexOf_from_found [OF assms, of 0] by (simp_all add: array_indexOf_def)

lemma count_list_hole:
  "i < length b \<Longrightarrow> b ! i = Some x \<Longrightarrow>
   count_list (b[i := None]) (Some y) + (if y = x then 1 else 0) = count_list b (Some y)"
proof (induction b arbitrary: i)
  case Nil
  then show ?case by simp
next
  case (Cons z zs)
  then show ?case by (cases i) auto
qed

lemma set_hole: "Some y \<in> set (b[i := None]) \<Longrightarrow> Some y \<in> set b"
proof (induction b arbitrary: i)
  case Nil
  then show ?case by simp
next
  case (Cons z zs)
  then show ?case by (cases i) auto
qed


lemma removeChild_present:
  assumes "map_of (itemsById f) itemId = Some x"
    and "map_of (itemsByStartTime f) (startTime x) = Some b"
    and "Some x \<in> set b"
  shows "removeChild itemId f =
    (Inr (), f\<lparr>itemsByStartTime :=
                 AList.update (startTime x) (b[nat (array_indexOf b x) := None]) (itemsByStartTime f),
               itemsById := AList.delete itemId (itemsById f)\<rparr>)"
proof -
  from assms(3) have "array_indexOf b x \<noteq> - 1" "b \<noteq> []"
    using array_indexOf_found(1) [OF assms(3)] by auto
  with assms(1,2) show ?thesis
    by (simp add: removeChild_def Let_def)
qed

lemma lockStep_removeChild:
  assumes inv: "lockStep f"
  shows "lockStep (snd (removeChild itemId f))"
proof (cases "map_of (itemsById f) itemId")
  case None
  then show ?thesis using inv by (simp add: removeChild_def)
next
  case (Some x)
  define b where "b = bucketOf f (startTime x)"
  define b' where "b' = b[nat (array_indexOf b x) := None]"
  define f' where "f' = snd (removeChild itemId f)"
  from inv Some have idx: "item_id x = itemId" and cnt: "count_list b (Some x) = 1"
    unfolding lockStep_def b_def by blast+
  from cnt have mem: "Some x \<in> set b" by (rule count_pos_in_set)
  then have bst: "map_of (itemsByStartTime f) (startTime x) = Some b"
    unfolding b_def by (rule in_bucketOf)
  have f': "f' = f\<lparr>itemsByStartTime := AList.update (startTime x) b' (itemsByStartTime f),
                   itemsById := AList.delete itemId (itemsById f)\<rparr>"
    unfolding f'_def b'_def using removeChild_present [OF Some bst mem] by simp
  have byId: "map_of (itemsById f') = (map_of (itemsById f))(itemId := None)"
    by (simp add: f' delete_conv')
  have byStart: "map_of (itemsByStartTime f') = (map_of (itemsByStartTime f))(startTime x \<mapsto> b')"
    by (simp add: f' update_conv')
  have bucket: "bucketOf f' dt = (if dt = startTime x then b' else bucketOf f dt)" for dt
    by (simp add: bucketOf_def [of f'] byStart) (simp add: bucketOf_def)
  have hole: "count_list b' (Some y) + (if y = x then 1 else 0) = count_list b (Some y)" for y
    unfolding b'_def using array_indexOf_found(2,3) [OF mem] by (rule count_list_hole)
  from hole [of x] cnt have gone: "Some x \<notin> set b'"
    by (simp add: count_list_0_iff)
  have one: "item_id y = k \<and> count_list (bucketOf f' (startTime y)) (Some y) = 1"
    if h: "map_of (itemsById f') k = Some y" for k y
  proof -
    from h have ne: "k \<noteq> itemId" and old: "map_of (itemsById f) k = Some y"
      by (auto simp: byId split: if_splits)
    with inv have k: "item_id y = k" and c: "count_list (bucketOf f (startTime y)) (Some y) = 1"
      unfolding lockStep_def by blast+
    from k ne idx have "y \<noteq> x" by auto
    with hole [of y] have "count_list b' (Some y) = count_list b (Some y)" by simp
    with k c show ?thesis
      by (cases "startTime y = startTime x") (simp_all add: bucket b_def)
  qed
  have two: "dt = startTime y \<and> map_of (itemsById f') (item_id y) = Some y"
    if h: "map_of (itemsByStartTime f') dt = Some c" and m: "Some y \<in> set c" for dt c y
  proof -
    have "\<exists>c0. map_of (itemsByStartTime f) dt = Some c0 \<and> Some y \<in> set c0"
    proof (cases "dt = startTime x")
      case True
      with h have "c = b'" by (simp add: byStart)
      with m have "Some y \<in> set b" unfolding b'_def by (auto dest: set_hole)
      with True bst show ?thesis by simp
    next
      case False
      with h m show ?thesis by (simp add: byStart)
    qed
    with inv have d: "dt = startTime y" and i: "map_of (itemsById f) (item_id y) = Some y"
      unfolding lockStep_def by blast+
    have "y \<noteq> x"
    proof
      assume "y = x"
      with d h have "c = b'" by (simp add: byStart)
      with m \<open>y = x\<close> gone show False by simp
    qed
    with i Some have "item_id y \<noteq> itemId" by auto
    with d i show ?thesis by (simp add: byId)
  qed
  show ?thesis unfolding f'_def [symmetric] lockStep_def using one two by blast
qed

lemma reachable_lockStep: "reachable f \<Longrightarrow> lockStep f"
  by (induction rule: reachable.induct)
    (simp_all add: lockStep_new lockStep_addChild lockStep_removeChild)

text \<open>
  C3: in every feed reachable from a new feed by \<open>addChild\<close> (on an identity not yet
  present) and \<open>removeChild\<close>, an item stored in \<open>itemsById\<close> is stored under its identity
  and occurs exactly once in the bucket of its \<open>startTime\<close>, and an item in a bucket of
  \<open>itemsByStartTime\<close> is in the bucket of its \<open>startTime\<close> and is stored in \<open>itemsById\<close> under
  its identity.
\<close>

theorem indices_in_lock_step:
  assumes "reachable f"
  shows "(\<forall>k item. map_of (itemsById f) k = Some item \<longrightarrow>
            item_id item = k \<and> count_list (bucketOf f (startTime item)) (Some item) = 1) \<and>
         (\<forall>dt b item. map_of (itemsByStartTime f) dt = Some b \<longrightarrow> Some item \<in> set b \<longrightarrow>
            dt = startTime item \<and> map_of (itemsById f) (item_id item) = Some item)"
  using reachable_lockStep [OF assms] unfolding lockStep_def .

theorem indices_in_lock_step_witness:
  "reachable (snd (removeChild (item_id itemA) feedAB)) \<and>
   map_of (itemsById (snd (removeChild (item_id itemA) feedAB))) (item_id itemB) = Some itemB \<and>
   count_list (bucketOf (snd (removeChild (item_id itemA) feedAB)) (startTime itemB)) (Some itemB) = 1 \<and>
   map_of (itemsByStartTime (snd (removeChild (item_id itemA) feedAB))) (startTime itemB) =
     Some [Some itemB]"
proof -
  let ?f = "snd (removeChild (item_id itemA) feedAB)"
  have a: "map_of (itemsById feed0) (item_id itemA) = None" by code_simp
  have b: "map_of (itemsById (addChild itemA feed0)) (item_id itemB) = None" by code_simp
  have "reachable feed0" unfolding feed0_def by (rule reachable.new)
  then have "reachable (addChild itemA feed0)" using a by (rule reachable.insert)
  then have "reachable feedAB" unfolding feedAB_def using b by (rule reachable.insert)
  then have r: "reachable ?f" by (rule reachable.remove)
  have i: "map_of (itemsById ?f) (item_id itemB) = Some itemB" by code_simp
  have s: "map_of (itemsByStartTime ?f) (startTime itemB) = Some [Some itemB]" by code_simp
  from indices_in_lock_step [OF r] i
  have "count_list (bucketOf ?f (startTime itemB)) (Some itemB) = 1" by blast
  with r i s show ?thesis by blast
qed

subsection \<open>A parse failure during \<open>update\<close>\<close>

lemma nothingRemoved_refl: "nothingRemoved f f"
  by (simp add: nothingRemoved_def)

lemma nothingRemoved_trans:
  assumes "nothingRemoved f g" and "nothingRemoved g h"
  shows "nothingRemoved f h"
  unfolding nothingRemoved_def
proof (intro conjI allI impI)
  fix k item
  assume "map_of (itemsById f) k = Some item"
  with assms show "map_of (itemsById h) k = Some item"
    unfolding nothingRemoved_def by blast
next
  fix dt b
  assume "map_of (itemsByStartTime f) dt = Some b"
  with assms(1) obtain b' where b': "map_of (itemsByStartTime g) dt = Some b'" "prefix b b'"
    unfolding nothingRemoved_def by blast
  with assms(2) obtain b'' where "map_of (itemsByStartTime h) dt = Some b''" "prefix b' b''"
    unfolding nothingRemoved_def by blast
  with b'(2) show "\<exists>b'. map_of (itemsByStartTime h) dt = Some b' \<and> prefix b b'"
    using prefix_order.order_trans by blast
qed

lemma nothingRemoved_addChild:
  assumes "map_of (itemsById f) (item_id x) = None"
  shows "nothingRemoved f (addChild x f)"
  unfolding nothingRemoved_def
proof (intro conjI allI impI)
  fix k item
  assume "map_of (itemsById f) k = Some item"
  with assms show "map_of (itemsById (addChild x f)) k = Some item"
    by (auto simp: byId_addChild)
next
  fix dt b
  assume "map_of (itemsByStartTime f) dt = Some b"
  then show "\<exists>b'. map_of (itemsByStartTime (addChild x f)) dt = Some b' \<and> prefix b b'"
    by (auto simp: byStart_addChild bucketOf_def)
qed

lemma parseChild_nothingRemoved:
  "nothingRemoved f (fst (snd (parseChild dp el (f, n))))"
  by (auto simp: parseChild_def nothingRemoved_refl nothingRemoved_addChild
      split: prod.splits sum.splits option.splits)

lemma parseChildren_nothingRemoved:
  "nothingRemoved (fst s) (fst (snd (parseChildren dp els c s)))"
proof (induction els arbitrary: c s)
  case Nil
  then show ?case by (simp add: nothingRemoved_refl)
next
  case (Cons el els)
  obtain r f' n' where p: "parseChild dp el s = (r, f', n')" by (cases "parseChild dp el s") auto
  have step: "nothingRemoved (fst s) f'"
    using parseChild_nothingRemoved [of "fst s" dp el "snd s"] p by simp
  show ?case
  proof (cases r)
    case (Inl e)
    with p step show ?thesis by simp
  next
    case (Inr cr)
    obtain created child where "cr = (created, child)" by (cases cr) auto
    with p Inr step Cons.IH [where c = "if created then True else c" and s = "(f', n')"] show ?thesis
      by (auto intro: nothingRemoved_trans)
  qed
qed

lemma parseChildren_append:
  "parseChildren dp (pre @ rest) c s =
     (case parseChildren dp pre c s of
        (Inl e, s') \<Rightarrow> (Inl e, s')
      | (Inr c', s') \<Rightarrow> parseChildren dp rest c' s')"
  by (induction pre arbitrary: c s) (auto split: prod.splits sum.splits)

text \<open>
  C5, as the code has it: when the channel passes the freshness gate and \<open>FeedItem.parse\<close>
  throws on one of its entries, \<open>update\<close> throws that error and removes nothing; the feed
  is left as \<open>parseChild\<close> on the entries before the failing one left it, so an entry
  created earlier in the same pass stays inserted, and every item and bucket element
  that was in the feed before the call is still there.
\<close>

theorem update_parse_failure_keeps_earlier:
  assumes gate: "remoteBuildDate dp doc nxt = Inr bd" "\<not> date_gt bd (buildDate f)"
    and items: "channelItems doc = pre @ bad # post"
    and pre: "parseChildren dp pre False (f, nxt + 1) = (Inr c, f1, n1)"
    and bad: "fst (FeedItem_parse dp bad n1) = Inl e"
  shows "fst (update dp doc (f, nxt)) = Inl e \<and>
         fst (snd (update dp doc (f, nxt))) = f1 \<and>
         (\<forall>k item. map_of (itemsById f) k = Some item \<longrightarrow> map_of (itemsById f1) k = Some item) \<and>
         (\<forall>dt b. map_of (itemsByStartTime f) dt = Some b \<longrightarrow>
            (\<exists>b'. map_of (itemsByStartTime f1) dt = Some b' \<and> prefix b b'))"
proof -
  have loop: "parseChildren dp (channelItems doc) False (f, nxt + 1) =
      (Inl e, f1, snd (FeedItem_parse dp bad n1))"
    using pre parseChild_error [OF bad, of f1] by (simp add: items parseChildren_append)
  have u: "update dp doc (f, nxt) = (Inl e, f1, snd (FeedItem_parse dp bad n1))"
    using gate loop by (simp add: update_def Let_def)
  have "nothingRemoved f f1"
    using parseChildren_nothingRemoved [of "(f, nxt + 1)" dp pre False] pre by simp
  with u show ?thesis unfolding nothingRemoved_def by simp
qed

theorem update_parse_failure_keeps_earlier_witness:
  "remoteBuildDate sample_dp docCBad 9 = Inr \<lparr>dref = 9, dtime = Some 1704441600000\<rparr> \<and>
   channelItems docCBad = [entryC] @ entryBadStart # [] \<and>
   fst (update sample_dp docCBad (feedAB, 9)) = Inl InvalidDate \<and>
   fst (snd (update sample_dp docCBad (feedAB, 9))) = addChild itemC' feedAB \<and>
   map_of (itemsById (addChild itemC' feedAB)) (item_id itemA) = Some itemA"
proof -
  have g: "remoteBuildDate sample_dp docCBad 9 = Inr \<lparr>dref = 9, dtime = Some 1704441600000\<rparr>"
    by code_simp
  have n: "\<not> date_gt \<lparr>dref = 9, dtime = Some 1704441600000\<rparr> (buildDate feedAB)"
    by code_simp
  have i: "channelItems docCBad = [entryC] @ entryBadStart # []" by code_simp
  have p: "parseChildren sample_dp [entryC] False (feedAB, 9 + 1) =
      (Inr True, addChild itemC' feedAB, 14)"
    by code_simp
  have b: "fst (FeedItem_parse sample_dp entryBadStart 14) = Inl InvalidDate" by code_simp
  have a: "map_of (itemsById feedAB) (item_id itemA) = Some itemA" by code_simp
  from update_parse_failure_keeps_earlier [OF g n i p b] a
  have "fst (update sample_dp docCBad (feedAB, 9)) = Inl InvalidDate \<and>
     fst (snd (update sample_dp docCBad (feedAB, 9))) = addChild itemC' feedAB \<and>
     map_of (itemsById (addChild itemC' feedAB)) (item_id itemA) = Some itemA"
    by blast
  with g i show ?thesis by blast
qed

text \<open>
  C5 as stated fails: on \<open>feedAB\<close> and the channel with the new entry \<open>C\<close> followed by an
  entry whose start is no date, \<open>update\<close> throws the invalid-date error, and the feed it
  leaves is not \<open>feedAB\<close>: \<open>C\<close> is stored in it.
\<close>

theorem update_parse_failure_mutates_feed:
  "fst (update sample_dp docCBad (feedAB, 9)) = Inl InvalidDate \<and>
   fst (snd (update sample_dp docCBad (feedAB, 9))) \<noteq> feedAB \<and>
   map fst (itemsById feedAB) = [''A || 1704445200000'', ''B || 1704448800000''] \<and>
   map fst (itemsById (fst (snd (update sample_dp docCBad (feedAB, 9))))) =
     [''A || 1704445200000'', ''B || 1704448800000'', ''C || 1704452400000'']"
  by code_simp

subsection \<open>The order of \<open>sortedItems\<close>\<close>

lemma notAfter_refl: "notAfter a a"
  by (simp add: notAfter_def compareTime_def split: option.splits)

lemma notAfter_trans:
  "validDate b \<Longrightarrow> notAfter a b \<Longrightarrow> notAfter b c \<Longrightarrow> notAfter a c"
  by (auto simp: notAfter_def compareTime_def validDate_def split: option.splits)

lemma notAfter_total: "\<not> notAfter a b \<Longrightarrow> notAfter b a"
  by (auto simp: notAfter_def compareTime_def split: option.splits)

lemma set_insertByTime: "set (insertByTime a bs) = insert a (set bs)"
  by (induction bs) auto

lemma sorted_insertByTime:
  assumes "sorted_wrt notAfter bs" and "\<forall>b\<in>set bs. validDate b"
  shows "sorted_wrt notAfter (insertByTime a bs)"
  using assms
proof (induction bs)
  case Nil
  then show ?case by simp
next
  case (Cons b bs)
  show ?case
  proof (cases "compareTime a b \<le> 0")
    case True
    then have ab: "notAfter a b" by (simp add: notAfter_def)
    have "notAfter a c" if "c \<in> set bs" for c
      using that Cons.prems ab notAfter_trans [of b a c] by auto
    with True ab Cons.prems show ?thesis by auto
  next
    case False
    then have "notAfter b a" using notAfter_total by (simp add: notAfter_def)
    with False Cons show ?thesis by (auto simp: set_insertByTime)
  qed
qed

lemma set_sortByTime: "set (sortByTime ds) = set ds"
  by (induction ds) (simp_all add: sortByTime_def set_insertByTime)

lemma sorted_sortByTime:
  "\<forall>d\<in>set ds. validDate d \<Longrightarrow> sorted_wrt notAfter (sortByTime ds)"
proof (induction ds)
  case Nil
  then show ?case by (simp add: sortByTime_def)
next
  case (Cons d ds)
  then have "sorted_wrt notAfter (sortByTime ds)" "\<forall>b\<in>set (sortByTime ds). validDate b"
    by (simp_all add: set_sortByTime)
  then have "sorted_wrt notAfter (insertByTime d (sortByTime ds))"
    by (rule sorted_insertByTime)
  then show ?case by (simp add: sortByTime_def)
qed

lemma sortedItems_buckets:
  "sortedItems f = concat (map (bucketOf f) (sortedStartTimes f))"
proof -
  have "bucketOf f = (\<lambda>dt. case map_of (itemsByStartTime f) dt of None \<Rightarrow> [] | Some items \<Rightarrow> items)"
    by (rule ext) (simp add: bucketOf_def)
  then show ?thesis by (simp add: sortedItems_def)
qed

lemma in_order_concat:
  assumes "sorted_wrt notAfter ks"
    and "\<And>k x. k \<in> set ks \<Longrightarrow> Some x \<in> set (B k) \<Longrightarrow> startTime x = k"
  shows "sorted_wrt (\<lambda>x y. notAfter (startTime x) (startTime y))
     [x. Some x \<leftarrow> concat (map B ks)]"
  using assms
proof (induction ks)
  case Nil
  then show ?case by simp
next
  case (Cons k ks)
  have here: "sorted_wrt (\<lambda>x y. notAfter (startTime x) (startTime y)) [x. Some x \<leftarrow> B k]"
  proof (rule sorted_wrt_mono_rel [where P = "\<lambda>x y. True"])
    fix x y
    assume "x \<in> set [x. Some x \<leftarrow> B k]" "y \<in> set [x. Some x \<leftarrow> B k]"
    then have "Some x \<in> set (B k)" "Some y \<in> set (B k)" by (auto split: option.splits)
    then have "startTime x = k" "startTime y = k" using Cons.prems(2) by simp_all
    then show "notAfter (startTime x) (startTime y)" by (simp add: notAfter_refl)
  qed simp
  have rest: "sorted_wrt (\<lambda>x y. notAfter (startTime x) (startTime y))
      [x. Some x \<leftarrow> concat (map B ks)]"
    using Cons by simp
  have cross: "notAfter (startTime x) (startTime y)"
    if "x \<in> set [x. Some x \<leftarrow> B k]" "y \<in> set [x. Some x \<leftarrow> concat (map B ks)]" for x y
  proof -
    from that(1) have "Some x \<in> set (B k)" by (auto split: option.splits)
    then have x: "startTime x = k" using Cons.prems(2) by simp
    from that(2) obtain k' where k': "k' \<in> set ks" "Some y \<in> set (B k')"
      by (auto split: option.splits)
    then have "startTime y = k'" using Cons.prems(2) by simp
    with x k'(1) Cons.prems(1) show ?thesis by auto
  qed
  show ?case using here rest cross by (simp add: sorted_wrt_append)
qed

text \<open>
  In a reachable feed whose bucket keys are valid dates, the items that \<open>sortedItems()\<close>
  yields are in non-decreasing order of \<open>startTime\<close>; the holes left by \<open>removeChild\<close> are
  the only elements in between.
\<close>

lemma sortedItems_items_in_order:
  assumes "reachable f" and "\<forall>dt\<in>set (map fst (itemsByStartTime f)). validDate dt"
  shows "sorted_wrt (\<lambda>x y. notAfter (startTime x) (startTime y)) [x. Some x \<leftarrow> sortedItems f]"
  unfolding sortedItems_buckets
proof (rule in_order_concat)
  show "sorted_wrt notAfter (sortedStartTimes f)"
    unfolding sortedStartTimes_def using assms(2) by (rule sorted_sortByTime)
next
  fix k x
  assume "k \<in> set (sortedStartTimes f)" "Some x \<in> set (bucketOf f k)"
  then have "map_of (itemsByStartTime f) k = Some (bucketOf f k)" by (simp add: in_bucketOf)
  with \<open>Some x \<in> set (bucketOf f k)\<close> reachable_lockStep [OF assms(1)]
  show "startTime x = k" unfolding lockStep_def by blast
qed

subsection \<open>What \<open>delete subArr[subIndex]\<close> leaves behind\<close>

text \<open>
  C4 at a concrete feed: after \<open>addChild\<close> of \<open>A\<close> on the empty feed and \<open>removeChild\<close> of
  its identity, \<open>itemsById\<close> is empty, but \<open>itemsByStartTime\<close> still has the key of \<open>A\<close>'s
  start time; its bucket is an array of length one that holds a hole, so the test
  \<open>subArr.length == 0\<close> is false and the key is not deleted.
\<close>

theorem removeChild_keeps_emptied_bucket:
  "removeChild (item_id itemA) (addChild itemA feed0) =
     (Inr (), feed0\<lparr>itemsByStartTime := [(startTime itemA, [None])]\<rparr>) \<and>
   itemsById (snd (removeChild (item_id itemA) (addChild itemA feed0))) = [] \<and>
   map fst (itemsByStartTime (snd (removeChild (item_id itemA) (addChild itemA feed0)))) =
     [startTime itemA]"
  by code_simp

text \<open>
  C8 at a concrete feed: after \<open>removeChild\<close> of \<open>A\<close>'s identity on the feed of \<open>A\<close> and
  \<open>B\<close>, \<open>sortedItems()\<close> yields \<open>undefined\<close> (the hole in \<open>A\<close>'s bucket) and then \<open>B\<close>: its
  first element is no item and has no \<open>startTime\<close>.
\<close>

theorem sortedItems_yields_hole:
  "fst (removeChild (item_id itemA) feedAB) = Inr () \<and>
   sortedItems (snd (removeChild (item_id itemA) feedAB)) = [None, Some itemB]"
  by code_simp

text \<open>
  C1 at the scenario: \<open>Feed.parse\<close> of the channel with \<open>A\<close> (09:00) and \<open>B\<close> (10:00) gives
  \<open>feedAB\<close>; \<open>update\<close> with the channel of the same build date that holds \<open>B\<close> and \<open>C\<close>
  (11:00) returns \<open>changed = true\<close> and the removed identities of \<open>A\<close> and \<open>B\<close>, and
  \<open>itemsById\<close> then holds \<open>C\<close> only; but \<open>sortedItems()\<close> yields \<open>undefined\<close> twice (the
  holes in the buckets of \<open>A\<close> and \<open>B\<close>) before \<open>C\<close>.
\<close>

theorem update_scenario_sortedItems:
  "Feed_parse sample_dp docAB 0 = (Inr feedAB, 9) \<and>
   map snd (itemsById feedAB) = [itemA, itemB] \<and>
   fst (update sample_dp docBC (feedAB, 9)) =
     Inr (True, [''A || 1704445200000'', ''B || 1704448800000'']) \<and>
   itemsById (fst (snd (update sample_dp docBC (feedAB, 9)))) = [(''C || 1704452400000'', itemC)] \<and>
   sortedItems (fst (snd (update sample_dp docBC (feedAB, 9)))) = [None, None, Some itemC]"
  by code_simp

subsection \<open>Buckets are keyed by \<open>Date\<close> objects\<close>

text \<open>
  C9 at a concrete channel: the entries \<open>A\<close> and \<open>A2\<close> start at the same instant.
  \<open>FeedItem.parse\<close> builds a \<open>Date\<close> object for each, \<open>itemsByStartTime.has\<close> compares the
  objects and not their time values, so the feed has two buckets of one item each, and
  \<open>sortedStartTimes()\<close> yields the instant twice.
\<close>

theorem equal_instants_get_two_buckets:
  "Feed_parse sample_dp docAA2 0 = (Inr (addChild itemA2 (addChild itemA feed0)), 9) \<and>
   itemsByStartTime (addChild itemA2 (addChild itemA feed0)) =
     [(\<lparr>dref = 2, dtime = Some 1704445200000\<rparr>, [Some itemA]),
      (\<lparr>dref = 6, dtime = Some 1704445200000\<rparr>, [Some itemA2])] \<and>
   map dtime (sortedStartTimes (addChild itemA2 (addChild itemA feed0))) =
     [Some 1704445200000, Some 1704445200000]"
  by code_simp

end
